theory Spec2Isabelle
  imports Main
begin

section \<open>Python values used by \<open>lml/plugin.py\<close>\<close>

text \<open>
  Exceptions are values. Each constructor is one Python exception class; its argument is
  the message, where one is kept. \<open>Exception\<close> is what \<open>plugin.py\<close> raises itself;
  \<open>TypeError\<close> is \<open>str + None\<close>; \<open>AttributeError\<close> is an attribute read on \<open>None\<close>;
  \<open>ImportError\<close> is what the class loader of \<open>lml.utils\<close> re-raises.
\<close>

datatype error =
    Exception string
  | TypeError
  | AttributeError
  | ImportError string

text \<open>The name of the exception's class, Python's \<open>type(e).__name__\<close>.\<close>

fun class_name :: "error \<Rightarrow> string" where
  "class_name (Exception msg) = ''Exception''"
| "class_name TypeError = ''TypeError''"
| "class_name AttributeError = ''AttributeError''"
| "class_name (ImportError msg) = ''ImportError''"

text \<open>
  A Python string is the list of the bytes of its UTF-8 text. \<open>str.lower\<close> is a builtin
  whose table of cased characters (all of Unicode) is not part of this module: it is a
  parameter \<open>str_lower\<close> of every function that calls it, and the theorems hold for
  whatever function it is.
\<close>

type_synonym lowering = "string \<Rightarrow> string"

text \<open>\<open>s.split('.')[0]\<close>: the text before the first dot, all of \<open>s\<close> when it has none.\<close>

definition split_dot_first :: "string \<Rightarrow> string" where
  "split_dot_first s = takeWhile (\<lambda>c. c \<noteq> CHR ''.'') s"

text \<open>\<open>s.replace('_', '-')\<close>.\<close>

definition replace_underscore :: "string \<Rightarrow> string" where
  "replace_underscore s = map (\<lambda>c. if c = CHR ''_'' then CHR ''-'' else c) s"

text \<open>Truth value of an optional string: \<open>None\<close> and \<open>''\<close> are false.\<close>

definition truthy :: "string option \<Rightarrow> bool" where
  "truthy v = (case v of None \<Rightarrow> False | Some t \<Rightarrow> t \<noteq> [])"

text \<open>\<open>"%s" % v\<close> for an optional string.\<close>

definition percent_s :: "string option \<Rightarrow> string" where
  "percent_s v = (case v of None \<Rightarrow> ''None'' | Some t \<Rightarrow> t)"

text \<open>
  A plugin class, as far as the registry looks at it: its \<open>__module__\<close> and its
  \<open>__name__\<close>.
\<close>

record pycls =
  cls_module :: string
  cls_name :: string

section \<open>The objects\<close>

text \<open>
  \<open>PluginInfo\<close>. The field \<open>private_tags\<close> is \<open>self.__tags\<close>. The \<open>properties\<close>
  dictionary is left out: \<open>__getattr__\<close> answers \<open>module_name\<close> before it looks there,
  and nothing else in the module reads it.
\<close>

record plugin_info =
  plugin_type :: string
  absolute_import_path :: "string option"
  cls :: "pycls option"
  private_tags :: "string list option"

text \<open>
  \<open>PluginManager\<close>. The registry is a \<open>defaultdict(list)\<close> of references to
  \<open>PluginInfo\<close> objects: an absent key is \<open>None\<close>.
\<close>

record manager =
  plugin_name :: string
  registry :: "string \<rightharpoonup> nat list"

text \<open>
  The store. Objects are mutable and shared (one \<open>PluginInfo\<close> sits in the list of each
  of its tags), so they live in a heap and are named by reference. \<open>PLUG_IN_MANAGERS\<close>
  and \<open>CACHED_PLUGIN_INFO\<close> are the two module globals. \<open>imported\<close> records every
  path handed to \<open>do_import_class\<close>, in call order.
\<close>

record state =
  infos :: "nat \<Rightarrow> plugin_info"
  managers :: "nat \<Rightarrow> manager"
  PLUG_IN_MANAGERS :: "string \<rightharpoonup> nat"
  CACHED_PLUGIN_INFO :: "string \<rightharpoonup> nat list"
  imported :: "string list"

text \<open>
  A call returns its value or the exception it raised, together with the state it left:
  what a call wrote before it raised stays written.
\<close>

type_synonym 'a result = "(error + 'a) \<times> state"

text \<open>
  \<open>do_import_class\<close> lives in \<open>lml.utils\<close> and is a parameter here: a function from the
  import path to the class or to the exception it raises. Whatever else importing a module
  may run is outside the model.
\<close>

type_synonym loader = "string \<Rightarrow> error + pycls"

section \<open>\<open>PluginInfo\<close>\<close>

text \<open>
  The attribute \<open>module_name\<close>, answered by \<open>__getattr__\<close>: the first segment of
  the import path when the path is neither \<open>None\<close> nor empty, else \<open>self.cls.__module__\<close>.
\<close>

definition cls_dunder_module :: "plugin_info \<Rightarrow> error + string" where
  "cls_dunder_module self =
     (case cls self of
        None \<Rightarrow> Inl AttributeError
      | Some c \<Rightarrow> Inr (cls_module c))"

definition plugin_module_name :: "plugin_info \<Rightarrow> error + string" where
  "plugin_module_name self =
     (case absolute_import_path self of
        None \<Rightarrow> cls_dunder_module self
      | Some path \<Rightarrow>
          (if path \<noteq> [] then Inr (split_dot_first path) else cls_dunder_module self))"

text \<open>\<open>tags()\<close>: the generator's items, in order.\<close>

definition tags :: "plugin_info \<Rightarrow> string list" where
  "tags self =
     (case private_tags self of
        None \<Rightarrow> [plugin_type self]
      | Some ts \<Rightarrow> ts)"

section \<open>\<open>PluginManager\<close>\<close>

definition get_me_pypi_package_name :: "string \<Rightarrow> string" where
  "get_me_pypi_package_name name =
     replace_underscore (split_dot_first name)"

definition raise_exception :: "nat \<Rightarrow> string \<Rightarrow> state \<Rightarrow> 'a result" where
  "raise_exception self key s =
     (Inl (Exception (''No '' @ plugin_name (managers s self) @ '' is found for '' @ key)), s)"

text \<open>
  The list a \<open>defaultdict(list)\<close> holds at a key, the empty list when the key is absent;
  and \<open>d[key].append(r)\<close>, which makes the key when it is absent.
\<close>

definition getlist :: "(string \<rightharpoonup> nat list) \<Rightarrow> string \<Rightarrow> nat list" where
  "getlist d key = (case d key of None \<Rightarrow> [] | Some l \<Rightarrow> l)"

definition registry_append :: "(string \<rightharpoonup> nat list) \<Rightarrow> string \<Rightarrow> nat \<Rightarrow> (string \<rightharpoonup> nat list)" where
  "registry_append d key r = d(key \<mapsto> getlist d key @ [r])"

text \<open>The loop \<open>for key in plugin_info.tags(): self.registry[key.lower()].append(plugin_info)\<close>.\<close>

primrec index_tags ::
  "lowering \<Rightarrow> nat \<Rightarrow> string list \<Rightarrow> (string \<rightharpoonup> nat list) \<Rightarrow> (string \<rightharpoonup> nat list)" where
  "index_tags str_lower r [] reg = reg"
| "index_tags str_lower r (key # keys) reg =
     index_tags str_lower r keys (registry_append reg (str_lower key) r)"

definition set_registry :: "nat \<Rightarrow> (string \<rightharpoonup> nat list) \<Rightarrow> state \<Rightarrow> state" where
  "set_registry self reg s =
     s\<lparr>managers := (managers s)(self := (managers s self)\<lparr>registry := reg\<rparr>)\<rparr>"

definition set_cls :: "nat \<Rightarrow> pycls \<Rightarrow> state \<Rightarrow> state" where
  "set_cls r c s = s\<lparr>infos := (infos s)(r := (infos s r)\<lparr>cls := Some c\<rparr>)\<rparr>"

definition load_me_later :: "lowering \<Rightarrow> nat \<Rightarrow> nat \<Rightarrow> state \<Rightarrow> unit result" where
  "load_me_later str_lower self r s =
     (case plugin_module_name (infos s r) of
        Inl e \<Rightarrow> (Inl e, s)
      | Inr _ \<Rightarrow>
          (Inr (),
           set_registry self
             (index_tags str_lower r (tags (infos s r)) (registry (managers s self))) s))"

definition dynamic_load_library :: "loader \<Rightarrow> nat \<Rightarrow> state \<Rightarrow> pycls result" where
  "dynamic_load_library do_import_class r s =
     (case cls (infos s r) of
        Some c \<Rightarrow> (Inr c, s)
      | None \<Rightarrow>
          (case absolute_import_path (infos s r) of
             None \<Rightarrow> (Inl TypeError, s)
           | Some path \<Rightarrow>
               (case do_import_class path of
                  Inl e \<Rightarrow> (Inl e, s\<lparr>imported := imported s @ [path]\<rparr>)
                | Inr c \<Rightarrow> (Inr c, set_cls r c (s\<lparr>imported := imported s @ [path]\<rparr>)))))"

text \<open>
  The \<open>for ... else\<close> loop of \<open>load_me_now\<close> over the list of one key: the empty list
  is the \<open>else\<close> branch, \<open>continue\<close> is the recursive call, \<open>break\<close> returns \<open>cls\<close>.
\<close>

fun load_loop :: "loader \<Rightarrow> string option \<Rightarrow> nat list \<Rightarrow> state \<Rightarrow> pycls result" where
  "load_loop do_import_class library [] s =
     (Inl (Exception (percent_s library @ '' is not installed'')), s)"
| "load_loop do_import_class library (r # rs) s =
     (case dynamic_load_library do_import_class r s of
        (Inl e, s') \<Rightarrow> (Inl e, s')
      | (Inr c, s') \<Rightarrow>
          (if truthy library \<and> Some (get_me_pypi_package_name (cls_module c)) \<noteq> library
           then load_loop do_import_class library rs s'
           else (Inr c, s')))"

text \<open>\<open>load_me_now(key, library)\<close>; the extra keywords are only logged.\<close>

definition load_me_now ::
  "lowering \<Rightarrow> loader \<Rightarrow> nat \<Rightarrow> string \<Rightarrow> string option \<Rightarrow> state \<Rightarrow> pycls result" where
  "load_me_now str_lower do_import_class self key library s =
     (case registry (managers s self) (str_lower key) of
        Some rs \<Rightarrow> load_loop do_import_class library rs s
      | None \<Rightarrow> raise_exception self key s)"

text \<open>
  \<open>get_a_plugin(key, **keywords)\<close>. \<open>call c kw\<close> is the call \<open>c(**kw)\<close> of a plugin
  class, which belongs to the plugin and not to this module.
\<close>

definition get_a_plugin ::
  "lowering \<Rightarrow> (pycls \<Rightarrow> (string \<times> 'v) list \<Rightarrow> error + 'i) \<Rightarrow> loader \<Rightarrow> nat \<Rightarrow> string
     \<Rightarrow> (string \<times> 'v) list \<Rightarrow> state \<Rightarrow> 'i result" where
  "get_a_plugin str_lower call do_import_class self key keywords s =
     (case load_me_now str_lower do_import_class self key None s of
        (Inl e, s') \<Rightarrow> (Inl e, s')
      | (Inr plugin, s') \<Rightarrow> (call plugin [], s'))"

text \<open>\<open>register_a_plugin(plugin_cls, plugin_info)\<close>: the class is set inside the loop.\<close>

definition register_a_plugin :: "lowering \<Rightarrow> nat \<Rightarrow> pycls \<Rightarrow> nat \<Rightarrow> state \<Rightarrow> state" where
  "register_a_plugin str_lower self plugin_cls r s =
     (let ts = tags (infos s r);
          s1 = (if ts = [] then s else set_cls r plugin_cls s)
      in set_registry self (index_tags str_lower r ts (registry (managers s1 self))) s1)"

section \<open>The module functions\<close>




text \<open>\<open>CACHED_PLUGIN_INFO[plugin_type].append(plugin_info)\<close>.\<close>

definition cache_append :: "string \<Rightarrow> nat \<Rightarrow> state \<Rightarrow> state" where
  "cache_append ptype r s =
     s\<lparr>CACHED_PLUGIN_INFO := registry_append (CACHED_PLUGIN_INFO s) ptype r\<rparr>"


text \<open>\<open>_register_a_plugin(plugin_info, plugin_cls)\<close>.\<close>

definition mod_register_a_plugin :: "lowering \<Rightarrow> nat \<Rightarrow> pycls \<Rightarrow> state \<Rightarrow> state" where
  "mod_register_a_plugin str_lower r plugin_cls s =
     (case PLUG_IN_MANAGERS s (plugin_type (infos s r)) of
        Some m \<Rightarrow> register_a_plugin str_lower m plugin_cls r s
      | None \<Rightarrow> cache_append (plugin_type (infos s r)) r s)"

text \<open>\<open>PluginInfo.__call__(cls)\<close>, the decorator.\<close>

definition PluginInfo_call :: "lowering \<Rightarrow> nat \<Rightarrow> pycls \<Rightarrow> state \<Rightarrow> state" where
  "PluginInfo_call str_lower r c s = mod_register_a_plugin str_lower r c (set_cls r c s)"

section \<open>Specification-side notions\<close>

text \<open>
  What the lazy resolution of a descriptor returns, in the spec's words: the handle it
  holds when it holds one, else what the class loader makes of its import path. A
  descriptor with neither has no path to put into the log line, which raises.
\<close>

definition lazy_handle :: "loader \<Rightarrow> plugin_info \<Rightarrow> error + pycls" where
  "lazy_handle do_import_class p =
     (case cls p of
        Some c \<Rightarrow> Inr c
      | None \<Rightarrow>
          (case absolute_import_path p of
             None \<Rightarrow> Inl TypeError
           | Some path \<Rightarrow> do_import_class path))"

text \<open>The list that the registry of the manager \<open>self\<close> holds at a key.\<close>

definition registry_list :: "state \<Rightarrow> nat \<Rightarrow> string \<Rightarrow> nat list" where
  "registry_list s self key = getlist (registry (managers s self)) key"

text \<open>
  The entries that indexing the descriptor \<open>r\<close> adds to the list of the key \<open>k\<close>: one
  for each of its tags that lowercases to \<open>k\<close>.
\<close>

definition tag_entries :: "lowering \<Rightarrow> nat \<Rightarrow> plugin_info \<Rightarrow> string \<Rightarrow> nat list" where
  "tag_entries str_lower r p k = map (\<lambda>t. r) [t\<leftarrow>tags p. str_lower t = k]"

text \<open>
  The descriptor resolves to a class of the package \<open>lib\<close>: the spec's "originating
  package name equals the library filter".
\<close>

definition belongs_to :: "loader \<Rightarrow> string \<Rightarrow> plugin_info \<Rightarrow> bool" where
  "belongs_to do_import_class lib p =
     (case lazy_handle do_import_class p of
        Inl e \<Rightarrow> False
      | Inr c \<Rightarrow> get_me_pypi_package_name (cls_module c) = lib)"

text \<open>
  The descriptor resolves to a class of another package than \<open>lib\<close>: with the library
  \<open>lib\<close> the scan goes on behind it.
\<close>

definition passed_over :: "loader \<Rightarrow> string \<Rightarrow> plugin_info \<Rightarrow> bool" where
  "passed_over do_import_class lib p =
     (case lazy_handle do_import_class p of
        Inl e \<Rightarrow> False
      | Inr c \<Rightarrow> get_me_pypi_package_name (cls_module c) \<noteq> lib)"

text \<open>A descriptor with a non-empty import path or a class.\<close>

definition valid_info :: "plugin_info \<Rightarrow> bool" where
  "valid_info p = (truthy (absolute_import_path p) \<or> cls p \<noteq> None)"

text \<open>The state after the lazy resolution of each descriptor of a list, in order.\<close>

fun resolve_all :: "loader \<Rightarrow> nat list \<Rightarrow> state \<Rightarrow> state" where
  "resolve_all imp [] s = s"
| "resolve_all imp (r # rs) s = resolve_all imp rs (snd (dynamic_load_library imp r s))"


section \<open>A concrete registry\<close>

text \<open>
  For the examples, whose strings are all ASCII, \<open>str.lower\<close> is the function that maps
  the capitals \<open>A\<close> to \<open>Z\<close> to their small letters.
\<close>

definition lower_char :: "char \<Rightarrow> char" where
  "lower_char c =
     (case map_of (zip ''ABCDEFGHIJKLMNOPQRSTUVWXYZ'' ''abcdefghijklmnopqrstuvwxyz'') c of
        Some d \<Rightarrow> d
      | None \<Rightarrow> c)"

definition ex_lower :: lowering where
  "ex_lower s = map lower_char s"

text \<open>
  Two readers, of the packages \<open>a-xml\<close> and \<open>b-xml\<close>, and a loader that knows their two
  paths. The descriptors, all of the type \<open>Parser\<close> and none loaded yet: 0, 1 and 5 with
  explicit tags; 2 with no tags given; 3 with the empty tag list; 4 with a path the loader
  does not know; 6 with the empty path; every other one with neither path nor class.
  \<open>ex_state\<close> is what registering 0, 4 and 1, in this order, with the manager 0 leaves;
  in \<open>ex_pending\<close> 0 and 1 wait for a manager; in \<open>ex_empty\<close> nothing has happened yet.
\<close>

definition a_reader :: pycls where
  "a_reader = \<lparr>cls_module = ''a_xml.reader'', cls_name = ''Reader''\<rparr>"

definition b_reader :: pycls where
  "b_reader = \<lparr>cls_module = ''b_xml'', cls_name = ''Reader''\<rparr>"

definition ex_import :: loader where
  "ex_import path =
     (if path = ''a_xml.reader.Reader'' then Inr a_reader
      else if path = ''b_xml.Reader'' then Inr b_reader
      else Inl (ImportError path))"

definition ex_call ::
  "pycls \<Rightarrow> (string \<times> string) list \<Rightarrow> error + pycls \<times> (string \<times> string) list" where
  "ex_call c keywords = Inr (c, keywords)"

definition ex_infos :: "nat \<Rightarrow> plugin_info" where
  "ex_infos r =
     (if r = 0 then
        \<lparr>plugin_type = ''Parser'', absolute_import_path = Some ''a_xml.reader.Reader'',
         cls = None, private_tags = Some [''XML'', ''Atom'']\<rparr>
      else if r = 1 then
        \<lparr>plugin_type = ''Parser'', absolute_import_path = Some ''b_xml.Reader'',
         cls = None, private_tags = Some [''xml'', ''Markup'', ''feed'']\<rparr>
      else if r = 2 then
        \<lparr>plugin_type = ''Parser'', absolute_import_path = Some ''b_xml.Reader'',
         cls = None, private_tags = None\<rparr>
      else if r = 3 then
        \<lparr>plugin_type = ''Parser'', absolute_import_path = Some ''b_xml.Reader'',
         cls = None, private_tags = Some []\<rparr>
      else if r = 4 then
        \<lparr>plugin_type = ''Parser'', absolute_import_path = Some ''c_xml.Reader'',
         cls = None, private_tags = Some [''Feed'', ''atom'']\<rparr>
      else if r = 5 then
        \<lparr>plugin_type = ''Parser'', absolute_import_path = Some ''b_xml.Reader'',
         cls = None, private_tags = Some [''CSV'']\<rparr>
      else if r = 6 then
        \<lparr>plugin_type = ''Parser'', absolute_import_path = Some [],
         cls = None, private_tags = None\<rparr>
      else
        \<lparr>plugin_type = ''Parser'', absolute_import_path = None,
         cls = None, private_tags = None\<rparr>)"

definition ex_state :: state where
  "ex_state =
     \<lparr>infos = ex_infos,
      managers = (\<lambda>m. \<lparr>plugin_name = ''Parser'',
                         registry = [''xml'' \<mapsto> [0, 1], ''atom'' \<mapsto> [0, 4],
                                     ''feed'' \<mapsto> [4, 1], ''markup'' \<mapsto> [1]]\<rparr>),
      PLUG_IN_MANAGERS = [''Parser'' \<mapsto> 0],
      CACHED_PLUGIN_INFO = Map.empty,
      imported = []\<rparr>"



lemmas ex_defs = ex_state_def ex_infos_def ex_import_def a_reader_def b_reader_def
  load_me_now_def dynamic_load_library_def ex_lower_def lower_char_def truthy_def percent_s_def
  get_me_pypi_package_name_def replace_underscore_def split_dot_first_def set_cls_def
  raise_exception_def

section \<open>Lazy resolution and the scan\<close>

lemma dll_frame:
  "managers (snd (dynamic_load_library imp r s)) = managers s"
  "PLUG_IN_MANAGERS (snd (dynamic_load_library imp r s)) = PLUG_IN_MANAGERS s"
  "CACHED_PLUGIN_INFO (snd (dynamic_load_library imp r s)) = CACHED_PLUGIN_INFO s"
  by (simp_all add: dynamic_load_library_def set_cls_def split: option.splits sum.splits)

lemma load_loop_frame:
  "managers (snd (load_loop imp library rs s)) = managers s \<and>
   PLUG_IN_MANAGERS (snd (load_loop imp library rs s)) = PLUG_IN_MANAGERS s \<and>
   CACHED_PLUGIN_INFO (snd (load_loop imp library rs s)) = CACHED_PLUGIN_INFO s"
proof (induction rs arbitrary: s)
  case Nil
  show ?case by simp
next
  case (Cons r rs)
  obtain res s1 where d: "dynamic_load_library imp r s = (res, s1)"
    by (cases "dynamic_load_library imp r s")
  have f: "managers s1 = managers s" "PLUG_IN_MANAGERS s1 = PLUG_IN_MANAGERS s"
    "CACHED_PLUGIN_INFO s1 = CACHED_PLUGIN_INFO s"
    using dll_frame [of imp r s] d by simp_all
  show ?case using Cons.IH [of s1] d f
    by (simp split: sum.splits)
qed

lemma load_me_now_frame:
  "managers (snd (load_me_now low imp self key library s)) = managers s \<and>
   PLUG_IN_MANAGERS (snd (load_me_now low imp self key library s)) = PLUG_IN_MANAGERS s \<and>
   CACHED_PLUGIN_INFO (snd (load_me_now low imp self key library s)) = CACHED_PLUGIN_INFO s"
  by (simp add: load_me_now_def raise_exception_def load_loop_frame split: option.splits)

lemma dll_fst: "fst (dynamic_load_library imp r s) = lazy_handle imp (infos s r)"
  by (simp add: dynamic_load_library_def lazy_handle_def split: option.splits sum.splits)

lemma dll_lazy_handle:
  "lazy_handle imp (infos (snd (dynamic_load_library imp r s)) q) = lazy_handle imp (infos s q)"
  by (simp add: dynamic_load_library_def lazy_handle_def set_cls_def split: option.splits sum.splits)

lemma dll_cls_kept:
  "cls (infos s q) = Some c \<Longrightarrow> cls (infos (snd (dynamic_load_library imp r s)) q) = Some c"
  by (cases "q = r") (auto simp add: dynamic_load_library_def set_cls_def split: option.splits sum.splits)

lemma dll_cls_cached:
  "lazy_handle imp (infos s r) = Inr c \<Longrightarrow> cls (infos (snd (dynamic_load_library imp r s)) r) = Some c"
  by (simp add: dynamic_load_library_def lazy_handle_def set_cls_def split: option.splits sum.splits)

lemma dll_other:
  "q \<noteq> r \<Longrightarrow> infos (snd (dynamic_load_library imp r s)) q = infos s q"
  by (simp add: dynamic_load_library_def set_cls_def split: option.splits sum.splits)

lemma dll_imported:
  "\<exists>xs. imported (snd (dynamic_load_library imp r s)) = imported s @ xs"
  by (simp add: dynamic_load_library_def set_cls_def split: option.splits sum.splits)

lemma dll_imported_new:
  "cls (infos s r) = None \<Longrightarrow> absolute_import_path (infos s r) = Some path \<Longrightarrow>
   imported (snd (dynamic_load_library imp r s)) = imported s @ [path]"
  by (simp add: dynamic_load_library_def set_cls_def split: option.splits sum.splits)

lemma load_loop_cls_kept:
  "cls (infos s q) = Some c \<Longrightarrow> cls (infos (snd (load_loop imp library rs s)) q) = Some c"
proof (induction rs arbitrary: s)
  case Nil
  then show ?case by simp
next
  case (Cons r rs)
  obtain res s1 where d: "dynamic_load_library imp r s = (res, s1)"
    by (cases "dynamic_load_library imp r s")
  have k: "cls (infos s1 q) = Some c"
    using dll_cls_kept [OF Cons.prems, of imp r] d by simp
  show ?case using Cons.IH [OF k] d k by (simp split: sum.splits)
qed

lemma load_loop_imported:
  "\<exists>xs. imported (snd (load_loop imp library rs s)) = imported s @ xs"
proof (induction rs arbitrary: s)
  case Nil
  show ?case by simp
next
  case (Cons r rs)
  obtain res s1 where d: "dynamic_load_library imp r s = (res, s1)"
    by (cases "dynamic_load_library imp r s")
  obtain xs where x: "imported s1 = imported s @ xs"
    using dll_imported [of imp r s] d by auto
  obtain ys where y: "imported (snd (load_loop imp library rs s1)) = imported s1 @ ys"
    using Cons.IH [of s1] by auto
  show ?case using d x y by (simp split: sum.splits)
qed

text \<open>The scan passes over a descriptor that resolves to a class of another package.\<close>

lemma load_loop_continue:
  assumes "lib \<noteq> []"
    and "lazy_handle imp (infos s r) = Inr c"
    and "get_me_pypi_package_name (cls_module c) \<noteq> lib"
  shows "load_loop imp (Some lib) (r # rs) s
           = load_loop imp (Some lib) rs (snd (dynamic_load_library imp r s))"
proof -
  obtain res s1 where d: "dynamic_load_library imp r s = (res, s1)"
    by (cases "dynamic_load_library imp r s")
  have "res = Inr c" using dll_fst [of imp r s] d assms(2) by simp
  then show ?thesis using d assms(1,3) by (simp add: truthy_def)
qed

lemma load_loop_skip:
  assumes "lib \<noteq> []"
    and "\<forall>q\<in>set pre. \<exists>c. lazy_handle imp (infos s q) = Inr c
            \<and> get_me_pypi_package_name (cls_module c) \<noteq> lib"
  shows "load_loop imp (Some lib) (pre @ post) s = load_loop imp (Some lib) post (resolve_all imp pre s)"
  using assms(2)
proof (induction pre arbitrary: s)
  case Nil
  show ?case by simp
next
  case (Cons r pre)
  obtain c where c: "lazy_handle imp (infos s r) = Inr c"
      "get_me_pypi_package_name (cls_module c) \<noteq> lib"
    using Cons.prems by auto
  let ?s1 = "snd (dynamic_load_library imp r s)"
  have "\<forall>q\<in>set pre. \<exists>c. lazy_handle imp (infos ?s1 q) = Inr c
            \<and> get_me_pypi_package_name (cls_module c) \<noteq> lib"
    using Cons.prems by (simp add: dll_lazy_handle)
  then have "load_loop imp (Some lib) (pre @ post) ?s1
      = load_loop imp (Some lib) post (resolve_all imp pre ?s1)"
    by (rule Cons.IH)
  then show ?case using load_loop_continue [OF assms(1) c] by simp
qed

lemma resolve_all_lazy_handle:
  "lazy_handle imp (infos (resolve_all imp rs s) q) = lazy_handle imp (infos s q)"
  by (induction rs arbitrary: s) (simp_all add: dll_lazy_handle)

lemma resolve_all_cls_kept:
  "cls (infos s q) = Some c \<Longrightarrow> cls (infos (resolve_all imp rs s) q) = Some c"
  by (induction rs arbitrary: s) (simp_all add: dll_cls_kept)

lemma resolve_all_imported:
  "\<exists>xs. imported (resolve_all imp rs s) = imported s @ xs"
proof (induction rs arbitrary: s)
  case Nil
  show ?case by simp
next
  case (Cons r rs)
  let ?s1 = "snd (dynamic_load_library imp r s)"
  obtain xs where x: "imported ?s1 = imported s @ xs"
    using dll_imported [of imp r s] by auto
  obtain ys where y: "imported (resolve_all imp rs ?s1) = imported ?s1 @ ys"
    using Cons.IH [of ?s1] by auto
  show ?case using x y by simp
qed

lemma resolve_all_cls_cached:
  "q \<in> set rs \<Longrightarrow> lazy_handle imp (infos s q) = Inr c \<Longrightarrow>
   cls (infos (resolve_all imp rs s) q) = Some c"
proof (induction rs arbitrary: s)
  case Nil
  then show ?case by simp
next
  case (Cons r rs)
  let ?s1 = "snd (dynamic_load_library imp r s)"
  show ?case
  proof (cases "q = r")
    case True
    then have "cls (infos ?s1 q) = Some c"
      using dll_cls_cached [of imp s r c] Cons.prems(2) by simp
    then show ?thesis by (simp add: resolve_all_cls_kept)
  next
    case False
    then have "q \<in> set rs" using Cons.prems(1) by simp
    moreover have "lazy_handle imp (infos ?s1 q) = Inr c"
      using Cons.prems(2) by (simp add: dll_lazy_handle)
    ultimately show ?thesis using Cons.IH [of ?s1] by simp
  qed
qed

lemma resolve_all_loaded:
  "q \<in> set rs \<Longrightarrow> cls (infos s q) = None \<Longrightarrow> absolute_import_path (infos s q) = Some path \<Longrightarrow>
   \<exists>xs. imported (resolve_all imp rs s) = imported s @ xs \<and> path \<in> set xs"
proof (induction rs arbitrary: s)
  case Nil
  then show ?case by simp
next
  case (Cons r rs)
  let ?s1 = "snd (dynamic_load_library imp r s)"
  show ?case
  proof (cases "q = r")
    case True
    then have a: "imported ?s1 = imported s @ [path]"
      using dll_imported_new [of s r path imp] Cons.prems by simp
    obtain ys where "imported (resolve_all imp rs ?s1) = imported ?s1 @ ys"
      using resolve_all_imported [of imp rs ?s1] by auto
    then show ?thesis using a by simp
  next
    case False
    then have i: "infos ?s1 q = infos s q" by (simp add: dll_other)
    have "q \<in> set rs" using False Cons.prems(1) by simp
    then obtain ys where y: "imported (resolve_all imp rs ?s1) = imported ?s1 @ ys" "path \<in> set ys"
      using Cons.IH [of ?s1] Cons.prems(2,3) i by auto
    obtain xs where x: "imported ?s1 = imported s @ xs"
      using dll_imported [of imp r s] by auto
    show ?thesis using x y by simp
  qed
qed

section \<open>Indexing and the drain\<close>

lemma index_tags_at:
  "index_tags low r ts d k =
     (if [t\<leftarrow>ts. low t = k] = [] then d k
      else Some (getlist d k @ map (\<lambda>t. r) [t\<leftarrow>ts. low t = k]))"
proof (induction ts arbitrary: d)
  case Nil
  show ?case by simp
next
  case (Cons t ts)
  show ?case
    by (simp add: Cons.IH registry_append_def getlist_def)
qed


lemma set_registry_fields:
  "infos (set_registry m reg s) = infos s"
  "PLUG_IN_MANAGERS (set_registry m reg s) = PLUG_IN_MANAGERS s"
  "CACHED_PLUGIN_INFO (set_registry m reg s) = CACHED_PLUGIN_INFO s"
  "imported (set_registry m reg s) = imported s"
  "registry (managers (set_registry m reg s) m) = reg"
  "plugin_name (managers (set_registry m reg s) m') = plugin_name (managers s m')"
  "m' \<noteq> m \<Longrightarrow> managers (set_registry m reg s) m' = managers s m'"
  by (simp_all add: set_registry_def)


lemma set_registry_same: "set_registry m (registry (managers s m)) s = s"
  by (simp add: set_registry_def)





lemma passed_over_dll:
  "passed_over imp lib (infos (snd (dynamic_load_library imp r s)) q)
     = passed_over imp lib (infos s q)"
  by (simp add: passed_over_def dll_lazy_handle)

lemma load_loop_scan:
  assumes "lib \<noteq> []"
  shows "fst (load_loop imp (Some lib) rs s) =
           (case find (\<lambda>q. \<not> passed_over imp lib (infos s q)) rs of
              None \<Rightarrow> Inl (Exception (lib @ '' is not installed''))
            | Some q \<Rightarrow> lazy_handle imp (infos s q))"
proof (induction rs arbitrary: s)
  case Nil
  show ?case by (simp add: percent_s_def)
next
  case (Cons r rs)
  obtain v s1 where d: "dynamic_load_library imp r s = (v, s1)"
    by (cases "dynamic_load_library imp r s")
  have lh: "lazy_handle imp (infos s r) = v" using dll_fst [of imp r s] d by simp
  have s1: "s1 = snd (dynamic_load_library imp r s)" using d by simp
  have same: "passed_over imp lib (infos s1 q) = passed_over imp lib (infos s q)"
      "lazy_handle imp (infos s1 q) = lazy_handle imp (infos s q)" for q
    unfolding s1 by (simp_all add: passed_over_dll dll_lazy_handle)
  show ?case
  proof (cases v)
    case (Inl e)
    have "\<not> passed_over imp lib (infos s r)" by (simp add: passed_over_def lh Inl)
    then show ?thesis by (simp add: d lh Inl)
  next
    case (Inr c)
    show ?thesis
    proof (cases "get_me_pypi_package_name (cls_module c) = lib")
      case True
      have "\<not> passed_over imp lib (infos s r)" by (simp add: passed_over_def lh Inr True)
      then show ?thesis by (simp add: d lh Inr True)
    next
      case False
      have "passed_over imp lib (infos s r)" by (simp add: passed_over_def lh Inr False)
      then show ?thesis
        using False assms Cons.IH [of s1]
        by (simp add: d Inr truthy_def same cong: option.case_cong)
    qed
  qed
qed

lemma find_first_match:
  assumes "\<forall>q\<in>set (takeWhile (\<lambda>q. \<not> belongs_to imp lib (nfo q)) rs).
             \<not> isl (lazy_handle imp (nfo q))"
  shows "find (\<lambda>q. \<not> passed_over imp lib (nfo q)) rs
           = find (\<lambda>q. belongs_to imp lib (nfo q)) rs"
  using assms
proof (induction rs)
  case Nil
  show ?case by simp
next
  case (Cons r rs)
  show ?case
  proof (cases "belongs_to imp lib (nfo r)")
    case True
    then have "\<not> passed_over imp lib (nfo r)"
      by (auto simp add: belongs_to_def passed_over_def split: sum.splits)
    then show ?thesis using True by simp
  next
    case False
    then have "\<not> isl (lazy_handle imp (nfo r))" using Cons.prems by simp
    then have "passed_over imp lib (nfo r)"
      using False by (auto simp add: belongs_to_def passed_over_def split: sum.splits)
    moreover have "find (\<lambda>q. \<not> passed_over imp lib (nfo q)) rs
           = find (\<lambda>q. belongs_to imp lib (nfo q)) rs"
      using Cons.prems False by (intro Cons.IH) simp
    ultimately show ?thesis using False by simp
  qed
qed

lemma find_unresolved:
  assumes "\<forall>q\<in>set rs. \<not> belongs_to imp lib (nfo q)"
  shows "find (\<lambda>q. \<not> passed_over imp lib (nfo q)) rs
           = find (\<lambda>q. isl (lazy_handle imp (nfo q))) rs"
  using assms
proof (induction rs)
  case Nil
  show ?case by simp
next
  case (Cons r rs)
  have "(\<not> passed_over imp lib (nfo r)) = isl (lazy_handle imp (nfo r))"
    using Cons.prems by (auto simp add: belongs_to_def passed_over_def split: sum.splits)
  then show ?case using Cons by simp
qed

lemma load_loop_unset:
  "\<not> truthy library \<Longrightarrow> load_loop imp library (r # rs) s = dynamic_load_library imp r s"
  by (cases "dynamic_load_library imp r s") (simp split: sum.splits)

lemma dll_imported_exact:
  "imported (snd (dynamic_load_library imp r s))
     = imported s @ (case cls (infos s r) of
                       Some c \<Rightarrow> []
                     | None \<Rightarrow> (case absolute_import_path (infos s r) of
                                  None \<Rightarrow> []
                                | Some path \<Rightarrow> [path]))"
  by (simp add: dynamic_load_library_def set_cls_def split: option.splits sum.splits)

lemma load_me_later_cases:
  "load_me_later low self r s
     = (if valid_info (infos s r)
        then (Inr (), set_registry self
                (index_tags low r (tags (infos s r)) (registry (managers s self))) s)
        else (Inl AttributeError, s))"
  by (auto simp add: load_me_later_def valid_info_def truthy_def plugin_module_name_def
      cls_dunder_module_def split: option.splits)

lemma load_me_later_returned:
  "fst (load_me_later low self r s) = Inr () \<Longrightarrow>
   load_me_later low self r s
     = (Inr (), set_registry self
          (index_tags low r (tags (infos s r)) (registry (managers s self))) s)"
  by (simp add: load_me_later_cases split: if_splits)

lemma dll_failed_import:
  assumes "cls (infos s r) = None" "absolute_import_path (infos s r) = Some path"
    "imp path = Inl e"
  shows "dynamic_load_library imp r s = (Inl e, s\<lparr>imported := imported s @ [path]\<rparr>)"
  using assms by (simp add: dynamic_load_library_def)

lemma tag_entries_member:
  assumes "t \<in> set (tags p)"
  shows "r \<in> set (tag_entries low r p (low t))"
proof -
  have "t \<in> set [u\<leftarrow>tags p. low u = low t]" using assms by simp
  then have "(\<lambda>u. r) t \<in> (\<lambda>u. r) ` set [u\<leftarrow>tags p. low u = low t]" by (rule imageI)
  then show ?thesis by (simp only: tag_entries_def set_map)
qed

lemma index_tags_registered:
  "t \<in> set ts \<Longrightarrow>
   index_tags low r ts d (low t) = Some (getlist d (low t) @ map (\<lambda>u. r) [u\<leftarrow>ts. low u = low t])"
proof -
  assume "t \<in> set ts"
  then have "t \<in> set [u\<leftarrow>ts. low u = low t]" by simp
  then have "[u\<leftarrow>ts. low u = low t] \<noteq> []" by (metis empty_iff list.set(1))
  then show ?thesis by (simp add: index_tags_at)
qed

section \<open>Declarations and the creation of a manager\<close>





section \<open>The claims\<close>

text \<open>
  C1, as the code has it. \<open>get_a_plugin(key, **keywords)\<close> resolves the key with
  \<open>load_me_now(key)\<close>, without a library, and calls the class it gets with no argument
  at all: the keywords are accepted and dropped, so the result is the same for every
  choice of them. Stated for a registered key whose first descriptor resolves to \<open>c\<close>.
\<close>

theorem get_a_plugin_calls_without_arguments:
  assumes reg: "registry (managers s self) (low key) = Some (r # rs)"
    and res: "lazy_handle imp (infos s r) = Inr c"
  shows "fst (load_me_now low imp self key None s) = Inr c
       \<and> get_a_plugin low call imp self key kwargs s
           = (call c [], snd (dynamic_load_library imp r s))
       \<and> get_a_plugin low call imp self key kwargs s = get_a_plugin low call imp self key [] s"
proof -
  obtain v s1 where d: "dynamic_load_library imp r s = (v, s1)"
    by (cases "dynamic_load_library imp r s")
  have v: "v = Inr c" using dll_fst [of imp r s] d res by simp
  have now: "load_me_now low imp self key None s = (Inr c, s1)"
    using reg d v by (simp add: load_me_now_def truthy_def)
  show ?thesis using now d by (simp add: get_a_plugin_def)
qed

theorem get_a_plugin_calls_without_arguments_witness:
  "fst (load_me_now ex_lower ex_import 0 ''xml'' None ex_state) = Inr a_reader
   \<and> fst (get_a_plugin ex_lower ex_call ex_import 0 ''xml'' [(''encoding'', ''utf-8'')] ex_state)
       = Inr (a_reader, [])"
proof -
  have reg: "registry (managers ex_state 0) (ex_lower ''xml'') = Some (0 # [1])"
    by (simp add: ex_defs)
  have res: "lazy_handle ex_import (infos ex_state 0) = Inr a_reader"
    by (simp add: ex_defs lazy_handle_def)
  show ?thesis
    using get_a_plugin_calls_without_arguments
      [where low = ex_lower and key = "''xml''" and call = ex_call
         and kwargs = "[(''encoding'', ''utf-8'')]", OF reg res]
    by (simp add: ex_call_def)
qed

text \<open>
  C1 as claimed (the keywords reach the constructor) fails: with a constructor that
  keeps the keywords it was called with, \<open>get_a_plugin\<close> with \<open>encoding='utf-8'\<close>
  returns the instance built from no keywords.
\<close>

theorem get_a_plugin_drops_keywords_counterexample:
  "fst (load_me_now ex_lower ex_import 0 ''xml'' None ex_state) = Inr a_reader
   \<and> fst (get_a_plugin ex_lower ex_call ex_import 0 ''xml'' [(''encoding'', ''utf-8'')] ex_state)
       = ex_call a_reader []
   \<and> fst (get_a_plugin ex_lower ex_call ex_import 0 ''xml'' [(''encoding'', ''utf-8'')] ex_state)
       \<noteq> ex_call a_reader [(''encoding'', ''utf-8'')]"
  by (simp add: ex_defs get_a_plugin_def ex_call_def)

text \<open>
  C2, as the code has it. A descriptor whose tags are unset (\<open>None\<close>) has the one tag
  \<open>plugin_type\<close>. If it has a non-empty import path or a class, \<open>load_me_later\<close> appends it
  to the list of the lowercased \<open>plugin_type\<close> and changes no other key, so \<open>load_me_now\<close>
  finds it under exactly the tags that lowercase to that key; if it has neither,
  \<open>load_me_later\<close> raises \<open>AttributeError\<close> and indexes nothing. A descriptor with an
  explicitly empty tag sequence has no tag, and \<open>load_me_later\<close> leaves the state as it is.
\<close>

theorem default_tag_when_unset:
  "(private_tags (infos s r) = None \<longrightarrow>
      tags (infos s r) = [plugin_type (infos s r)]
    \<and> (valid_info (infos s r) \<longrightarrow>
         (let s' = snd (load_me_later low self r s) in
            fst (load_me_later low self r s) = Inr ()
          \<and> (\<forall>k. registry (managers s' self) k
                 = (if k = low (plugin_type (infos s r))
                    then Some (registry_list s self k @ [r])
                    else registry (managers s self) k))
          \<and> (\<forall>t. low t = low (plugin_type (infos s r)) \<longrightarrow>
                load_me_now low imp self t library s'
                  = load_loop imp library (registry_list s self (low t) @ [r]) s')))
    \<and> (\<not> valid_info (infos s r) \<longrightarrow> load_me_later low self r s = (Inl AttributeError, s)))
   \<and> (private_tags (infos s r) = Some [] \<longrightarrow>
        tags (infos s r) = [] \<and> snd (load_me_later low self r s) = s)"
proof -
  let ?k = "low (plugin_type (infos s r))"
  let ?d = "registry_append (registry (managers s self)) ?k r"
  have t: "tags (infos s r) = [plugin_type (infos s r)]" if "private_tags (infos s r) = None"
    using that by (simp add: tags_def)
  have valid: "let s' = snd (load_me_later low self r s) in
            fst (load_me_later low self r s) = Inr ()
          \<and> (\<forall>k. registry (managers s' self) k
                 = (if k = low (plugin_type (infos s r))
                    then Some (registry_list s self k @ [r])
                    else registry (managers s self) k))
          \<and> (\<forall>t. low t = low (plugin_type (infos s r)) \<longrightarrow>
                load_me_now low imp self t library s'
                  = load_loop imp library (registry_list s self (low t) @ [r]) s')"
    if unset: "private_tags (infos s r) = None" and v: "valid_info (infos s r)"
  proof -
    have run: "load_me_later low self r s = (Inr (), set_registry self ?d s)"
      using v t [OF unset] by (simp add: load_me_later_cases)
    have at: "?d k = (if k = ?k then Some (registry_list s self k @ [r])
                      else registry (managers s self) k)" for k
      by (simp add: registry_append_def registry_list_def)
    have now: "load_me_now low imp self u library (set_registry self ?d s)
        = load_loop imp library (registry_list s self (low u) @ [r]) (set_registry self ?d s)"
      if "low u = ?k" for u
      using that at [of "low u"] by (simp add: load_me_now_def set_registry_fields)
    show ?thesis using run at now by (simp add: set_registry_fields)
  qed
  have invalid: "load_me_later low self r s = (Inl AttributeError, s)"
    if "\<not> valid_info (infos s r)"
    using that by (simp add: load_me_later_cases)
  have empty: "tags (infos s r) = [] \<and> snd (load_me_later low self r s) = s"
    if "private_tags (infos s r) = Some []"
  proof -
    have "tags (infos s r) = []" using that by (simp add: tags_def)
    then show ?thesis by (simp add: load_me_later_cases set_registry_same)
  qed
  show ?thesis using t valid invalid empty by blast
qed

theorem default_tag_when_unset_witness:
  "tags (infos ex_state 2) = [''Parser'']
   \<and> fst (load_me_later ex_lower 0 2 ex_state) = Inr ()
   \<and> registry (managers (snd (load_me_later ex_lower 0 2 ex_state)) 0) ''parser'' = Some [2]
   \<and> registry (managers (snd (load_me_later ex_lower 0 2 ex_state)) 0) ''xml'' = Some [0, 1]
   \<and> load_me_now ex_lower ex_import 0 ''PARSER'' None (snd (load_me_later ex_lower 0 2 ex_state))
       = load_loop ex_import None [2] (snd (load_me_later ex_lower 0 2 ex_state))
   \<and> load_me_later ex_lower 0 7 ex_state = (Inl AttributeError, ex_state)
   \<and> tags (infos ex_state 3) = []
   \<and> snd (load_me_later ex_lower 0 3 ex_state) = ex_state"
proof -
  have unset: "private_tags (infos ex_state 2) = None" "valid_info (infos ex_state 2)"
    by (simp_all add: ex_defs valid_info_def)
  have bad: "private_tags (infos ex_state 7) = None" "\<not> valid_info (infos ex_state 7)"
    by (simp_all add: ex_defs valid_info_def)
  have empty: "private_tags (infos ex_state 3) = Some []" by (simp add: ex_defs)
  have e: "plugin_type (infos ex_state 2) = ''Parser''" "ex_lower ''Parser'' = ''parser''"
    "ex_lower ''PARSER'' = ''parser''"
    "registry_list ex_state 0 ''parser'' = []"
    "registry (managers ex_state 0) ''xml'' = Some [0, 1]"
    by (simp_all add: ex_defs registry_list_def getlist_def)
  note t2 = default_tag_when_unset
    [where low = ex_lower and s = ex_state and r = 2 and self = 0 and imp = ex_import
       and library = None, THEN conjunct1, THEN mp, OF unset(1)]
  have a: "tags (infos ex_state 2) = [''Parser'']" using t2 [THEN conjunct1] e(1) by simp
  have b: "fst (load_me_later ex_lower 0 2 ex_state) = Inr ()
     \<and> registry (managers (snd (load_me_later ex_lower 0 2 ex_state)) 0) ''parser'' = Some [2]
     \<and> registry (managers (snd (load_me_later ex_lower 0 2 ex_state)) 0) ''xml'' = Some [0, 1]
     \<and> load_me_now ex_lower ex_import 0 ''PARSER'' None (snd (load_me_later ex_lower 0 2 ex_state))
       = load_loop ex_import None [2] (snd (load_me_later ex_lower 0 2 ex_state))"
    using t2 [THEN conjunct2, THEN conjunct1, THEN mp, OF unset(2)] e
    by (simp add: Let_def)
  have c: "load_me_later ex_lower 0 7 ex_state = (Inl AttributeError, ex_state)"
    using default_tag_when_unset
      [where low = ex_lower and s = ex_state and r = 7 and self = 0 and imp = ex_import
         and library = None, THEN conjunct1, THEN mp, OF bad(1)] bad(2)
    by simp
  have d: "tags (infos ex_state 3) = [] \<and> snd (load_me_later ex_lower 0 3 ex_state) = ex_state"
    using default_tag_when_unset
      [where low = ex_lower and s = ex_state and r = 3 and self = 0 and imp = ex_import
         and library = None, THEN conjunct2, THEN mp, OF empty] .
  show ?thesis using a b c d by simp
qed

text \<open>
  C2 as claimed (an explicitly empty tag sequence also means \<open>{plugin_type}\<close>) fails:
  descriptor 3 has \<open>tags=[]\<close> and type \<open>Parser\<close>; after \<open>load_me_later\<close> the key
  \<open>parser\<close> is still absent and resolving \<open>Parser\<close> raises.
\<close>

theorem empty_tags_counterexample:
  "private_tags (infos ex_state 3) = Some []
   \<and> plugin_type (infos ex_state 3) = ''Parser''
   \<and> set (tags (infos ex_state 3)) \<noteq> {''Parser''}
   \<and> fst (load_me_later ex_lower 0 3 ex_state) = Inr ()
   \<and> registry (managers (snd (load_me_later ex_lower 0 3 ex_state)) 0) (ex_lower ''Parser'') = None
   \<and> fst (load_me_now ex_lower ex_import 0 ''Parser'' None (snd (load_me_later ex_lower 0 3 ex_state)))
       = Inl (Exception ''No Parser is found for Parser'')"
  by (simp add: ex_defs tags_def load_me_later_def plugin_module_name_def set_registry_def)

text \<open>
  C3, as the code has it. \<open>load_me_now\<close> on an unregistered key raises
  \<open>Exception("No <plugin_name> is found for <key>")\<close>, whatever the manager holds
  otherwise. On a registered key, with a non-empty library that no descriptor of the list
  resolves to, it raises \<open>Exception("<library> is not installed")\<close> when every descriptor
  of the list resolves, and the error of the first one that does not resolve otherwise.
  The two errors that \<open>plugin.py\<close> raises itself are instances of the one class
  \<open>Exception\<close>, whatever their messages.
\<close>

theorem both_failures_are_plain_exceptions:
  "(registry (managers s self) (low ka) = None \<longrightarrow>
      load_me_now low imp self ka library s
        = (Inl (Exception (''No '' @ plugin_name (managers s self) @ '' is found for '' @ ka)), s))
   \<and> (\<forall>rs lib. registry (managers s self) (low kb) = Some rs \<and> lib \<noteq> []
          \<and> (\<forall>q\<in>set rs. \<not> belongs_to imp lib (infos s q)) \<longrightarrow>
        fst (load_me_now low imp self kb (Some lib) s)
          = (case find (\<lambda>q. isl (lazy_handle imp (infos s q))) rs of
               None \<Rightarrow> Inl (Exception (lib @ '' is not installed''))
             | Some q \<Rightarrow> lazy_handle imp (infos s q))
      \<and> ((\<forall>q\<in>set rs. \<not> isl (lazy_handle imp (infos s q))) \<longrightarrow>
            fst (load_me_now low imp self kb (Some lib) s)
              = Inl (Exception (lib @ '' is not installed''))))
   \<and> (\<forall>m1 m2. class_name (Exception m1) = class_name (Exception m2))"
proof -
  have a: "load_me_now low imp self ka library s
        = (Inl (Exception (''No '' @ plugin_name (managers s self) @ '' is found for '' @ ka)), s)"
    if "registry (managers s self) (low ka) = None"
    using that by (simp add: load_me_now_def raise_exception_def)
  have b: "fst (load_me_now low imp self kb (Some lib) s)
          = (case find (\<lambda>q. isl (lazy_handle imp (infos s q))) rs of
               None \<Rightarrow> Inl (Exception (lib @ '' is not installed''))
             | Some q \<Rightarrow> lazy_handle imp (infos s q))"
    if reg: "registry (managers s self) (low kb) = Some rs" and lib: "lib \<noteq> []"
      and no: "\<forall>q\<in>set rs. \<not> belongs_to imp lib (infos s q)" for rs lib
  proof -
    have "fst (load_me_now low imp self kb (Some lib) s) = fst (load_loop imp (Some lib) rs s)"
      using reg by (simp add: load_me_now_def)
    then show ?thesis
      using load_loop_scan [OF lib, of imp rs s] find_unresolved [OF no] by simp
  qed
  have c: "fst (load_me_now low imp self kb (Some lib) s)
              = Inl (Exception (lib @ '' is not installed''))"
    if reg: "registry (managers s self) (low kb) = Some rs" and lib: "lib \<noteq> []"
      and no: "\<forall>q\<in>set rs. \<not> belongs_to imp lib (infos s q)"
      and all: "\<forall>q\<in>set rs. \<not> isl (lazy_handle imp (infos s q))" for rs lib
  proof -
    have "find (\<lambda>q. isl (lazy_handle imp (infos s q))) rs = None"
      using all by (simp add: find_None_iff)
    then show ?thesis using b [OF reg lib no] by simp
  qed
  show ?thesis using a b c by simp
qed

theorem both_failures_are_plain_exceptions_witness:
  "fst (load_me_now ex_lower ex_import 0 ''unknownTag'' None ex_state)
     = Inl (Exception ''No Parser is found for unknownTag'')
   \<and> fst (load_me_now ex_lower ex_import 0 ''xml'' (Some ''c-xml'') ex_state)
     = Inl (Exception ''c-xml is not installed'')
   \<and> fst (load_me_now ex_lower ex_import 0 ''atom'' (Some ''z-xml'') ex_state)
     = Inl (ImportError ''c_xml.Reader'')"
proof -
  have unreg: "registry (managers ex_state 0) (ex_lower ''unknownTag'') = None"
    by (simp add: ex_defs)
  have n: "plugin_name (managers ex_state 0) = ''Parser''" by (simp add: ex_state_def)
  have h: "lazy_handle ex_import (infos ex_state 0) = Inr a_reader"
    "lazy_handle ex_import (infos ex_state 1) = Inr b_reader"
    "lazy_handle ex_import (infos ex_state 4) = Inl (ImportError ''c_xml.Reader'')"
    by (simp_all add: ex_defs lazy_handle_def)
  have p: "get_me_pypi_package_name (cls_module a_reader) = ''a-xml''"
    "get_me_pypi_package_name (cls_module b_reader) = ''b-xml''"
    by (simp_all add: ex_defs)
  have xml: "registry (managers ex_state 0) (ex_lower ''xml'') = Some [0, 1] \<and> ''c-xml'' \<noteq> []
      \<and> (\<forall>q\<in>set [0, 1]. \<not> belongs_to ex_import ''c-xml'' (infos ex_state q))"
    using h p by (simp add: ex_defs belongs_to_def)
  have atom: "registry (managers ex_state 0) (ex_lower ''atom'') = Some [0, 4] \<and> ''z-xml'' \<noteq> []
      \<and> (\<forall>q\<in>set [0, 4]. \<not> belongs_to ex_import ''z-xml'' (infos ex_state q))"
    using h p by (simp add: ex_defs belongs_to_def)
  note t = both_failures_are_plain_exceptions
    [where low = ex_lower and s = ex_state and self = 0 and imp = ex_import
       and ka = "''unknownTag''" and library = None]
  have a: "fst (load_me_now ex_lower ex_import 0 ''unknownTag'' None ex_state)
     = Inl (Exception ''No Parser is found for unknownTag'')"
    using t [where kb = "''xml''"] unreg n by simp
  have b: "fst (load_me_now ex_lower ex_import 0 ''xml'' (Some ''c-xml'') ex_state)
     = Inl (Exception ''c-xml is not installed'')"
    using t [where kb = "''xml''"] xml h by fastforce
  have c: "fst (load_me_now ex_lower ex_import 0 ''atom'' (Some ''z-xml'') ex_state)
     = Inl (ImportError ''c_xml.Reader'')"
  proof -
    have "fst (load_me_now ex_lower ex_import 0 ''atom'' (Some ''z-xml'') ex_state)
          = (case find (\<lambda>q. isl (lazy_handle ex_import (infos ex_state q))) [0, 4] of
               None \<Rightarrow> Inl (Exception (''z-xml'' @ '' is not installed''))
             | Some q \<Rightarrow> lazy_handle ex_import (infos ex_state q))"
      using t [where kb = "''atom''"] atom by blast
    then show ?thesis using h by simp
  qed
  show ?thesis using a b c by simp
qed

text \<open>
  C3 as claimed (two distinguishable error kinds) fails: the error of the unknown tag
  and the error of the missing library have the same class.
\<close>

theorem same_error_class_counterexample:
  "fst (load_me_now ex_lower ex_import 0 ''unknownTag'' None ex_state)
     = Inl (Exception ''No Parser is found for unknownTag'')
   \<and> fst (load_me_now ex_lower ex_import 0 ''xml'' (Some ''c-xml'') ex_state)
     = Inl (Exception ''c-xml is not installed'')
   \<and> class_name (Exception ''No Parser is found for unknownTag'')
     = class_name (Exception ''c-xml is not installed'')"
  by (simp add: ex_defs)

text \<open>
  C4, as the code has it. For a registered key and a non-empty library, \<open>load_me_now\<close>
  scans the list in order and stops at the first descriptor that is not passed over: one
  that does not resolve, whose error is the result, or one that resolves to a class of the
  library, whose class is the result; when every descriptor is passed over it fails with
  \<open>Exception("<library> is not installed")\<close>. So when the descriptors in front of the first
  one of the library resolve, the result is the class of the first descriptor of the
  library, and the failure when there is none. The empty string is no library: on a
  registered key (its list is never empty) the call is the call without a library and
  returns what the first descriptor resolves to.
\<close>

theorem load_me_now_library_first_match:
  assumes reg: "registry (managers s self) (low key) = Some rs"
    and lib: "lib \<noteq> []"
  shows "fst (load_me_now low imp self key (Some lib) s) =
           (case find (\<lambda>q. \<not> passed_over imp lib (infos s q)) rs of
              None \<Rightarrow> Inl (Exception (lib @ '' is not installed''))
            | Some q \<Rightarrow> lazy_handle imp (infos s q))
       \<and> ((\<forall>q\<in>set (takeWhile (\<lambda>q. \<not> belongs_to imp lib (infos s q)) rs).
              \<not> isl (lazy_handle imp (infos s q))) \<longrightarrow>
            fst (load_me_now low imp self key (Some lib) s) =
              (case find (\<lambda>q. belongs_to imp lib (infos s q)) rs of
                 None \<Rightarrow> Inl (Exception (lib @ '' is not installed''))
               | Some q \<Rightarrow> lazy_handle imp (infos s q)))
       \<and> (rs \<noteq> [] \<longrightarrow>
            load_me_now low imp self key (Some []) s = load_me_now low imp self key None s
          \<and> fst (load_me_now low imp self key (Some []) s) = lazy_handle imp (infos s (hd rs)))"
proof -
  have now: "load_me_now low imp self key library s = load_loop imp library rs s" for library
    using reg by (simp add: load_me_now_def)
  have scan: "fst (load_me_now low imp self key (Some lib) s) =
           (case find (\<lambda>q. \<not> passed_over imp lib (infos s q)) rs of
              None \<Rightarrow> Inl (Exception (lib @ '' is not installed''))
            | Some q \<Rightarrow> lazy_handle imp (infos s q))"
    using load_loop_scan [OF lib, of imp rs s] by (simp add: now)
  have first: "fst (load_me_now low imp self key (Some lib) s) =
              (case find (\<lambda>q. belongs_to imp lib (infos s q)) rs of
                 None \<Rightarrow> Inl (Exception (lib @ '' is not installed''))
               | Some q \<Rightarrow> lazy_handle imp (infos s q))"
    if "\<forall>q\<in>set (takeWhile (\<lambda>q. \<not> belongs_to imp lib (infos s q)) rs).
              \<not> isl (lazy_handle imp (infos s q))"
    using scan find_first_match [OF that] by simp
  have unset: "load_me_now low imp self key (Some []) s = load_me_now low imp self key None s
          \<and> fst (load_me_now low imp self key (Some []) s) = lazy_handle imp (infos s (hd rs))"
    if ne: "rs \<noteq> []"
  proof -
    obtain r rest where rs: "rs = r # rest" using ne by (cases rs) simp_all
    have "load_loop imp (Some []) (r # rest) s = dynamic_load_library imp r s"
      by (rule load_loop_unset) (simp add: truthy_def)
    moreover have "load_loop imp None (r # rest) s = dynamic_load_library imp r s"
      by (rule load_loop_unset) (simp add: truthy_def)
    ultimately show ?thesis by (simp add: now rs dll_fst)
  qed
  show ?thesis using scan first unset by blast
qed

theorem load_me_now_library_first_match_witness:
  "fst (load_me_now ex_lower ex_import 0 ''XML'' (Some ''b-xml'') ex_state) = Inr b_reader
   \<and> fst (load_me_now ex_lower ex_import 0 ''XML'' (Some ''c-xml'') ex_state)
       = Inl (Exception ''c-xml is not installed'')
   \<and> fst (load_me_now ex_lower ex_import 0 ''Feed'' (Some ''b-xml'') ex_state)
       = Inl (ImportError ''c_xml.Reader'')
   \<and> load_me_now ex_lower ex_import 0 ''XML'' (Some []) ex_state
       = load_me_now ex_lower ex_import 0 ''XML'' None ex_state
   \<and> fst (load_me_now ex_lower ex_import 0 ''XML'' (Some []) ex_state) = Inr a_reader"
proof -
  have xml: "registry (managers ex_state 0) (ex_lower ''XML'') = Some [0, 1]"
    by (simp add: ex_defs)
  have feed: "registry (managers ex_state 0) (ex_lower ''Feed'') = Some [4, 1]"
    by (simp add: ex_defs)
  have h: "lazy_handle ex_import (infos ex_state 0) = Inr a_reader"
    "lazy_handle ex_import (infos ex_state 1) = Inr b_reader"
    "lazy_handle ex_import (infos ex_state 4) = Inl (ImportError ''c_xml.Reader'')"
    by (simp_all add: ex_defs lazy_handle_def)
  have p: "get_me_pypi_package_name (cls_module a_reader) = ''a-xml''"
    "get_me_pypi_package_name (cls_module b_reader) = ''b-xml''"
    by (simp_all add: ex_defs)
  have b: "''b-xml'' \<noteq> []" and c: "''c-xml'' \<noteq> []" by simp_all
  have po: "passed_over ex_import ''b-xml'' (infos ex_state 0)"
    "\<not> passed_over ex_import ''b-xml'' (infos ex_state 1)"
    "\<not> passed_over ex_import ''b-xml'' (infos ex_state 4)"
    "passed_over ex_import ''c-xml'' (infos ex_state 0)"
    "passed_over ex_import ''c-xml'' (infos ex_state 1)"
    using h p by (simp_all add: passed_over_def)
  note xb = load_me_now_library_first_match
      [where low = ex_lower and key = "''XML''" and imp = ex_import, OF xml b]
  note xc = load_me_now_library_first_match
      [where low = ex_lower and key = "''XML''" and imp = ex_import, OF xml c]
  note fb = load_me_now_library_first_match
      [where low = ex_lower and key = "''Feed''" and imp = ex_import, OF feed b]
  have "fst (load_me_now ex_lower ex_import 0 ''XML'' (Some ''b-xml'') ex_state) = Inr b_reader"
    using xb [THEN conjunct1] po h by simp
  moreover have "fst (load_me_now ex_lower ex_import 0 ''XML'' (Some ''c-xml'') ex_state)
       = Inl (Exception ''c-xml is not installed'')"
    using xc [THEN conjunct1] po by simp
  moreover have "fst (load_me_now ex_lower ex_import 0 ''Feed'' (Some ''b-xml'') ex_state)
       = Inl (ImportError ''c_xml.Reader'')"
    using fb [THEN conjunct1] po h by simp
  moreover have "load_me_now ex_lower ex_import 0 ''XML'' (Some []) ex_state
       = load_me_now ex_lower ex_import 0 ''XML'' None ex_state
     \<and> fst (load_me_now ex_lower ex_import 0 ''XML'' (Some []) ex_state) = Inr a_reader"
  proof -
    have ne: "[0, 1::nat] \<noteq> []" by simp
    have e: "lazy_handle ex_import (infos ex_state (hd [0, 1])) = Inr a_reader"
      using h by simp
    show ?thesis
      using xb [THEN conjunct2, THEN conjunct2, THEN mp, OF ne] e by metis
  qed
  ultimately show ?thesis by blast
qed

text \<open>
  C4 as claimed (for every library that is set) fails at the empty string, which the
  test \<open>if library and ...\<close> takes for no library: no descriptor of \<open>xml\<close> has the
  package name \<open>''\<close>, yet the call returns the first class instead of failing.
\<close>

theorem empty_library_counterexample:
  "registry (managers ex_state 0) (ex_lower ''xml'') = Some [0, 1]
   \<and> lazy_handle ex_import (infos ex_state 0) = Inr a_reader
   \<and> lazy_handle ex_import (infos ex_state 1) = Inr b_reader
   \<and> \<not> belongs_to ex_import [] (infos ex_state 0)
   \<and> \<not> belongs_to ex_import [] (infos ex_state 1)
   \<and> fst (load_me_now ex_lower ex_import 0 ''xml'' (Some []) ex_state) = Inr a_reader
   \<and> fst (load_me_now ex_lower ex_import 0 ''xml'' (Some []) ex_state)
       \<noteq> Inl (Exception ([] @ '' is not installed''))"
  by (simp add: ex_defs lazy_handle_def belongs_to_def)

text \<open>
  C5. For a registered tag, \<open>load_me_now(key)\<close> without a library returns what the first
  descriptor of the tag's list resolves to (its handle, or the error of its resolution),
  whatever package that is. It is the lazy resolution of that descriptor and nothing
  more: every other descriptor is left as it was, and the loader is called at most once,
  with the path of the first descriptor, and only when that one held no class.
\<close>

theorem load_me_now_no_library_first:
  assumes reg: "registry (managers s self) (low key) = Some (r # rs)"
  shows "fst (load_me_now low imp self key None s) = lazy_handle imp (infos s r)
       \<and> load_me_now low imp self key None s = dynamic_load_library imp r s
       \<and> (\<forall>q. q \<noteq> r \<longrightarrow> infos (snd (load_me_now low imp self key None s)) q = infos s q)
       \<and> imported (snd (load_me_now low imp self key None s))
           = imported s @ (case cls (infos s r) of
                             Some c \<Rightarrow> []
                           | None \<Rightarrow> (case absolute_import_path (infos s r) of
                                        None \<Rightarrow> []
                                      | Some path \<Rightarrow> [path]))"
proof -
  have "load_loop imp None (r # rs) s = dynamic_load_library imp r s"
    by (rule load_loop_unset) (simp add: truthy_def)
  then have now: "load_me_now low imp self key None s = dynamic_load_library imp r s"
    using reg by (simp add: load_me_now_def)
  show ?thesis
    unfolding now by (simp add: dll_fst dll_other dll_imported_exact)
qed

theorem load_me_now_no_library_first_witness:
  "fst (load_me_now ex_lower ex_import 0 ''XML'' None ex_state) = Inr a_reader
   \<and> infos (snd (load_me_now ex_lower ex_import 0 ''XML'' None ex_state)) 1 = infos ex_state 1
   \<and> imported (snd (load_me_now ex_lower ex_import 0 ''XML'' None ex_state))
       = [''a_xml.reader.Reader'']"
proof -
  have reg: "registry (managers ex_state 0) (ex_lower ''XML'') = Some (0 # [1])"
    by (simp add: ex_defs)
  have h: "lazy_handle ex_import (infos ex_state 0) = Inr a_reader"
    "cls (infos ex_state 0) = None"
    "absolute_import_path (infos ex_state 0) = Some ''a_xml.reader.Reader''"
    "imported ex_state = []"
    by (simp_all add: ex_defs lazy_handle_def)
  note t = load_me_now_no_library_first
      [where low = ex_lower and key = "''XML''" and imp = ex_import, OF reg]
  have "fst (load_me_now ex_lower ex_import 0 ''XML'' None ex_state) = Inr a_reader"
    using t [THEN conjunct1] h by simp
  moreover have
    "infos (snd (load_me_now ex_lower ex_import 0 ''XML'' None ex_state)) 1 = infos ex_state 1"
    using t [THEN conjunct2, THEN conjunct2, THEN conjunct1] by simp
  moreover have "imported (snd (load_me_now ex_lower ex_import 0 ''XML'' None ex_state))
       = [''a_xml.reader.Reader'']"
    using t [THEN conjunct2, THEN conjunct2, THEN conjunct2] h by simp
  ultimately show ?thesis by simp
qed

text \<open>
  C6, as the code has it. Take a descriptor with no class yet and an import path. When the
  class loader resolves the path to \<open>c\<close>, the first \<open>dynamic_load_library\<close> calls the loader
  once, with that path, and stores \<open>c\<close> on the descriptor; the next one returns \<open>c\<close> and
  leaves the state, hence the record of loader calls, as it is, also after any other
  \<open>load_me_now\<close> in between; and \<open>load_me_now\<close> twice on a tag whose list starts with the
  descriptor returns \<open>c\<close> twice with one loader call. When the loader raises, the error is
  the result, nothing is stored on the descriptor, and the next resolution calls the loader
  again with the same path.
\<close>

theorem dynamic_load_library_once:
  assumes unset: "cls (infos s r) = None"
    and path: "absolute_import_path (infos s r) = Some path"
  shows "(\<forall>c. imp path = Inr c \<longrightarrow>
            (let s1 = set_cls r c (s\<lparr>imported := imported s @ [path]\<rparr>) in
               dynamic_load_library imp r s = (Inr c, s1)
             \<and> dynamic_load_library imp r s1 = (Inr c, s1)
             \<and> (\<forall>self key library.
                   dynamic_load_library imp r (snd (load_me_now low imp self key library s1))
                     = (Inr c, snd (load_me_now low imp self key library s1)))
             \<and> (\<forall>self key rs. registry (managers s self) (low key) = Some (r # rs) \<longrightarrow>
                   load_me_now low imp self key None s = (Inr c, s1)
                 \<and> load_me_now low imp self key None s1 = (Inr c, s1)
                 \<and> imported s1 = imported s @ [path])))
       \<and> (\<forall>e. imp path = Inl e \<longrightarrow>
            (let s1 = s\<lparr>imported := imported s @ [path]\<rparr>;
                 s2 = s\<lparr>imported := imported s @ [path, path]\<rparr> in
               dynamic_load_library imp r s = (Inl e, s1)
             \<and> cls (infos s1 r) = None
             \<and> dynamic_load_library imp r s1 = (Inl e, s2)
             \<and> (\<forall>self key rs. registry (managers s self) (low key) = Some (r # rs) \<longrightarrow>
                   load_me_now low imp self key None s = (Inl e, s1)
                 \<and> load_me_now low imp self key None s1 = (Inl e, s2))))"
proof -
  have head: "load_me_now low imp self key None t = dynamic_load_library imp r t"
    if "registry (managers t self) (low key) = Some (r # rs)" for self key rs t
  proof -
    have "load_loop imp None (r # rs) t = dynamic_load_library imp r t"
      by (rule load_loop_unset) (simp add: truthy_def)
    then show ?thesis using that by (simp add: load_me_now_def)
  qed
  have good: "let s1 = set_cls r c (s\<lparr>imported := imported s @ [path]\<rparr>) in
               dynamic_load_library imp r s = (Inr c, s1)
             \<and> dynamic_load_library imp r s1 = (Inr c, s1)
             \<and> (\<forall>self key library.
                   dynamic_load_library imp r (snd (load_me_now low imp self key library s1))
                     = (Inr c, snd (load_me_now low imp self key library s1)))
             \<and> (\<forall>self key rs. registry (managers s self) (low key) = Some (r # rs) \<longrightarrow>
                   load_me_now low imp self key None s = (Inr c, s1)
                 \<and> load_me_now low imp self key None s1 = (Inr c, s1)
                 \<and> imported s1 = imported s @ [path])"
    if loads: "imp path = Inr c" for c
  proof -
    define s1 where "s1 = set_cls r c (s\<lparr>imported := imported s @ [path]\<rparr>)"
    have first: "dynamic_load_library imp r s = (Inr c, s1)"
      using unset path loads by (simp add: dynamic_load_library_def s1_def)
    have cached: "cls (infos s1 r) = Some c"
      by (simp add: s1_def set_cls_def)
    have again: "dynamic_load_library imp r t = (Inr c, t)" if "cls (infos t r) = Some c" for t
      using that by (simp add: dynamic_load_library_def)
    have later: "cls (infos (snd (load_me_now low imp self key library s1)) r) = Some c"
      for self key library
      using cached
      by (simp add: load_me_now_def raise_exception_def load_loop_cls_kept split: option.splits)
    have reg: "managers s1 = managers s"
      by (simp add: s1_def set_cls_def)
    have twice: "load_me_now low imp self key None s = (Inr c, s1)
             \<and> load_me_now low imp self key None s1 = (Inr c, s1)
             \<and> imported s1 = imported s @ [path]"
      if k: "registry (managers s self) (low key) = Some (r # rs)" for self key rs
    proof -
      have "registry (managers s1 self) (low key) = Some (r # rs)" using k reg by simp
      then show ?thesis
        using head [OF k] head [of s1 self key rs] first again [OF cached]
        by (simp add: s1_def set_cls_def)
    qed
    show ?thesis
      unfolding Let_def s1_def [symmetric]
      using first again [OF cached] again [OF later] twice by blast
  qed
  have bad: "let s1 = s\<lparr>imported := imported s @ [path]\<rparr>;
                 s2 = s\<lparr>imported := imported s @ [path, path]\<rparr> in
               dynamic_load_library imp r s = (Inl e, s1)
             \<and> cls (infos s1 r) = None
             \<and> dynamic_load_library imp r s1 = (Inl e, s2)
             \<and> (\<forall>self key rs. registry (managers s self) (low key) = Some (r # rs) \<longrightarrow>
                   load_me_now low imp self key None s = (Inl e, s1)
                 \<and> load_me_now low imp self key None s1 = (Inl e, s2))"
    if fails: "imp path = Inl e" for e
  proof -
    define s1 where "s1 = s\<lparr>imported := imported s @ [path]\<rparr>"
    define s2 where "s2 = s\<lparr>imported := imported s @ [path, path]\<rparr>"
    have first: "dynamic_load_library imp r s = (Inl e, s1)"
      unfolding s1_def using unset path fails by (rule dll_failed_import)
    have still: "cls (infos s1 r) = None" "absolute_import_path (infos s1 r) = Some path"
      using unset path by (simp_all add: s1_def)
    have "dynamic_load_library imp r s1 = (Inl e, s1\<lparr>imported := imported s1 @ [path]\<rparr>)"
      using still fails by (rule dll_failed_import)
    then have second: "dynamic_load_library imp r s1 = (Inl e, s2)"
      by (simp add: s1_def s2_def)
    have reg: "managers s1 = managers s" by (simp add: s1_def)
    have twice: "load_me_now low imp self key None s = (Inl e, s1)
                 \<and> load_me_now low imp self key None s1 = (Inl e, s2)"
      if k: "registry (managers s self) (low key) = Some (r # rs)" for self key rs
    proof -
      have "registry (managers s1 self) (low key) = Some (r # rs)" using k reg by simp
      then show ?thesis
        using head [OF k] head [of s1 self key rs] first second by simp
    qed
    show ?thesis
      unfolding Let_def s1_def [symmetric] s2_def [symmetric]
      using first still(1) second twice by blast
  qed
  show ?thesis using good bad by blast
qed

theorem dynamic_load_library_once_witness:
  "fst (load_me_now ex_lower ex_import 0 ''xml'' None ex_state) = Inr a_reader
   \<and> fst (load_me_now ex_lower ex_import 0 ''xml'' None
            (snd (load_me_now ex_lower ex_import 0 ''xml'' None ex_state))) = Inr a_reader
   \<and> imported (snd (load_me_now ex_lower ex_import 0 ''xml'' None
        (snd (load_me_now ex_lower ex_import 0 ''xml'' None ex_state)))) = [''a_xml.reader.Reader'']
   \<and> fst (load_me_now ex_lower ex_import 0 ''feed'' None ex_state)
       = Inl (ImportError ''c_xml.Reader'')
   \<and> imported (snd (load_me_now ex_lower ex_import 0 ''feed'' None
        (snd (load_me_now ex_lower ex_import 0 ''feed'' None ex_state))))
       = [''c_xml.Reader'', ''c_xml.Reader'']"
proof -
  have i: "imported ex_state = []" by (simp add: ex_state_def)
  have good: "fst (load_me_now ex_lower ex_import 0 ''xml'' None ex_state) = Inr a_reader
   \<and> fst (load_me_now ex_lower ex_import 0 ''xml'' None
            (snd (load_me_now ex_lower ex_import 0 ''xml'' None ex_state))) = Inr a_reader
   \<and> imported (snd (load_me_now ex_lower ex_import 0 ''xml'' None
        (snd (load_me_now ex_lower ex_import 0 ''xml'' None ex_state)))) = [''a_xml.reader.Reader'']"
  proof -
    have h1: "cls (infos ex_state 0) = None" by (simp add: ex_defs)
    have h2: "absolute_import_path (infos ex_state 0) = Some ''a_xml.reader.Reader''"
      by (simp add: ex_defs)
    have h3: "ex_import ''a_xml.reader.Reader'' = Inr a_reader" by (simp add: ex_import_def)
    have h4: "registry (managers ex_state 0) (ex_lower ''xml'') = Some (0 # [1])"
      by (simp add: ex_defs)
    define s1 where "s1 = set_cls 0 a_reader
        (ex_state\<lparr>imported := imported ex_state @ [''a_xml.reader.Reader'']\<rparr>)"
    have t: "load_me_now ex_lower ex_import 0 ''xml'' None ex_state = (Inr a_reader, s1)
         \<and> load_me_now ex_lower ex_import 0 ''xml'' None s1 = (Inr a_reader, s1)
         \<and> imported s1 = imported ex_state @ [''a_xml.reader.Reader'']"
      using dynamic_load_library_once
        [where low = ex_lower and s = ex_state and r = 0 and imp = ex_import, OF h1 h2] h3 h4
      unfolding Let_def s1_def by blast
    then show ?thesis using i by simp
  qed
  have bad: "fst (load_me_now ex_lower ex_import 0 ''feed'' None ex_state)
       = Inl (ImportError ''c_xml.Reader'')
   \<and> imported (snd (load_me_now ex_lower ex_import 0 ''feed'' None
        (snd (load_me_now ex_lower ex_import 0 ''feed'' None ex_state))))
       = [''c_xml.Reader'', ''c_xml.Reader'']"
  proof -
    have h1: "cls (infos ex_state 4) = None" by (simp add: ex_defs)
    have h2: "absolute_import_path (infos ex_state 4) = Some ''c_xml.Reader''"
      by (simp add: ex_defs)
    have h3: "ex_import ''c_xml.Reader'' = Inl (ImportError ''c_xml.Reader'')"
      by (simp add: ex_import_def)
    have h4: "registry (managers ex_state 0) (ex_lower ''feed'') = Some (4 # [1])"
      by (simp add: ex_defs)
    define s1 where "s1 = ex_state\<lparr>imported := imported ex_state @ [''c_xml.Reader'']\<rparr>"
    define s2 where
      "s2 = ex_state\<lparr>imported := imported ex_state @ [''c_xml.Reader'', ''c_xml.Reader'']\<rparr>"
    have t: "load_me_now ex_lower ex_import 0 ''feed'' None ex_state
           = (Inl (ImportError ''c_xml.Reader''), s1)
         \<and> load_me_now ex_lower ex_import 0 ''feed'' None s1
           = (Inl (ImportError ''c_xml.Reader''), s2)"
      using dynamic_load_library_once
        [where low = ex_lower and s = ex_state and r = 4 and imp = ex_import, OF h1 h2] h3 h4
      unfolding Let_def s1_def s2_def by blast
    then show ?thesis using i by (simp add: s2_def)
  qed
  show ?thesis using good bad by blast
qed

text \<open>
  C6 as claimed (for every path-based descriptor, resolving the same tag twice calls the
  loader exactly once) fails when the loader raises: descriptor 4 has no class and a path
  the loader does not know; resolving \<open>feed\<close>, whose list starts with it, twice calls the
  loader twice with that path and leaves the descriptor without a class.
\<close>

theorem failing_loader_called_again_counterexample:
  "cls (infos ex_state 4) = None
   \<and> absolute_import_path (infos ex_state 4) = Some ''c_xml.Reader''
   \<and> registry (managers ex_state 0) (ex_lower ''feed'') = Some [4, 1]
   \<and> imported ex_state = []
   \<and> fst (load_me_now ex_lower ex_import 0 ''feed'' None ex_state)
       = Inl (ImportError ''c_xml.Reader'')
   \<and> cls (infos (snd (load_me_now ex_lower ex_import 0 ''feed'' None ex_state)) 4) = None
   \<and> imported (snd (load_me_now ex_lower ex_import 0 ''feed'' None
        (snd (load_me_now ex_lower ex_import 0 ''feed'' None ex_state))))
       = [''c_xml.Reader'', ''c_xml.Reader'']"
  by (simp add: ex_defs)

text \<open>
  C7. Two keys with the same lowercase form are looked up in the same list: on a
  registered key both \<open>load_me_now\<close> calls are the scan of that one list, on an
  unregistered key both raise; and a descriptor that \<open>load_me_later\<close> indexed under the tag
  \<open>ka\<close> has been appended to the list that \<open>load_me_now\<close> scans for \<open>kb\<close>.
\<close>

theorem tag_lookup_case_insensitive:
  assumes same: "low ka = low kb"
  shows "(\<forall>rs. registry (managers s self) (low ka) = Some rs \<longrightarrow>
             load_me_now low imp self ka library s = load_loop imp library rs s
           \<and> load_me_now low imp self kb library s = load_loop imp library rs s)
       \<and> (registry (managers s self) (low ka) = None \<longrightarrow>
             fst (load_me_now low imp self ka library s)
               = Inl (Exception (''No '' @ plugin_name (managers s self) @ '' is found for '' @ ka))
           \<and> fst (load_me_now low imp self kb library s)
               = Inl (Exception (''No '' @ plugin_name (managers s self) @ '' is found for '' @ kb)))
       \<and> (\<forall>r. ka \<in> set (tags (infos s r)) \<and> fst (load_me_later low self r s) = Inr () \<longrightarrow>
             (let s' = snd (load_me_later low self r s);
                  rs = registry_list s self (low kb) @ tag_entries low r (infos s r) (low kb) in
                registry (managers s' self) (low kb) = Some rs
              \<and> r \<in> set (tag_entries low r (infos s r) (low kb))
              \<and> load_me_now low imp self kb library s' = load_loop imp library rs s'))"
proof -
  have found: "load_me_now low imp self ka library s = load_loop imp library rs s
           \<and> load_me_now low imp self kb library s = load_loop imp library rs s"
    if "registry (managers s self) (low ka) = Some rs" for rs
    using that same by (simp add: load_me_now_def)
  have missing: "fst (load_me_now low imp self ka library s)
               = Inl (Exception (''No '' @ plugin_name (managers s self) @ '' is found for '' @ ka))
           \<and> fst (load_me_now low imp self kb library s)
               = Inl (Exception (''No '' @ plugin_name (managers s self) @ '' is found for '' @ kb))"
    if "registry (managers s self) (low ka) = None"
    using that same by (simp add: load_me_now_def raise_exception_def)
  have indexed: "let s' = snd (load_me_later low self r s);
                  rs = registry_list s self (low kb) @ tag_entries low r (infos s r) (low kb) in
                registry (managers s' self) (low kb) = Some rs
              \<and> r \<in> set (tag_entries low r (infos s r) (low kb))
              \<and> load_me_now low imp self kb library s' = load_loop imp library rs s'"
    if tg: "ka \<in> set (tags (infos s r))" and ok: "fst (load_me_later low self r s) = Inr ()" for r
  proof -
    let ?d = "index_tags low r (tags (infos s r)) (registry (managers s self))"
    let ?rs = "registry_list s self (low kb) @ tag_entries low r (infos s r) (low kb)"
    have run: "load_me_later low self r s = (Inr (), set_registry self ?d s)"
      using load_me_later_returned [OF ok] .
    have at: "?d (low kb) = Some ?rs"
      using index_tags_registered [OF tg, of low r "registry (managers s self)"] same
      by (simp add: registry_list_def tag_entries_def)
    have mem: "r \<in> set (tag_entries low r (infos s r) (low kb))"
      using tag_entries_member [OF tg, of r low] same by simp
    have "load_me_now low imp self kb library (set_registry self ?d s)
        = load_loop imp library ?rs (set_registry self ?d s)"
      using at by (simp add: load_me_now_def set_registry_fields)
    then show ?thesis using run at mem by (simp add: set_registry_fields Let_def)
  qed
  show ?thesis using found missing indexed by blast
qed

theorem tag_lookup_case_insensitive_witness:
  "ex_lower ''CSV'' = ex_lower ''csv'' \<and> ex_lower ''CSV'' = ex_lower ''Csv''
   \<and> registry (managers ex_state 0) ''csv'' = None
   \<and> fst (load_me_now ex_lower ex_import 0 ''Csv'' None ex_state)
       = Inl (Exception ''No Parser is found for Csv'')
   \<and> registry (managers (snd (load_me_later ex_lower 0 5 ex_state)) 0) ''csv'' = Some [5]
   \<and> load_me_now ex_lower ex_import 0 ''Csv'' None (snd (load_me_later ex_lower 0 5 ex_state))
       = load_loop ex_import None [5] (snd (load_me_later ex_lower 0 5 ex_state))
   \<and> load_me_now ex_lower ex_import 0 ''XML'' None ex_state
       = load_me_now ex_lower ex_import 0 ''Xml'' None ex_state"
proof -
  have csv: "ex_lower ''CSV'' = ex_lower ''Csv''" "ex_lower ''CSV'' = ex_lower ''csv''"
    "ex_lower ''Csv'' = ''csv''" and xml: "ex_lower ''XML'' = ex_lower ''Xml''"
    by (simp_all add: ex_lower_def lower_char_def)
  have none: "registry (managers ex_state 0) (ex_lower ''CSV'') = None"
    by (simp add: ex_defs)
  have tag: "''CSV'' \<in> set (tags (infos ex_state 5))
      \<and> fst (load_me_later ex_lower 0 5 ex_state) = Inr ()"
    by (simp add: ex_defs tags_def load_me_later_def plugin_module_name_def)
  have e: "registry_list ex_state 0 (ex_lower ''Csv'') = []"
    "tag_entries ex_lower 5 (infos ex_state 5) (ex_lower ''Csv'') = [5]"
    "plugin_name (managers ex_state 0) = ''Parser''"
    by (simp_all add: ex_defs registry_list_def getlist_def tag_entries_def tags_def)
  have reg: "registry (managers ex_state 0) (ex_lower ''XML'') = Some [0, 1]"
    by (simp add: ex_defs)
  note t = tag_lookup_case_insensitive
    [where low = ex_lower and ka = "''CSV''" and kb = "''Csv''" and s = ex_state and self = 0
       and imp = ex_import and library = None, OF csv(1)]
  have a: "fst (load_me_now ex_lower ex_import 0 ''Csv'' None ex_state)
       = Inl (Exception ''No Parser is found for Csv'')"
    using t [THEN conjunct2, THEN conjunct1] none e(3) by simp
  have b: "registry (managers (snd (load_me_later ex_lower 0 5 ex_state)) 0) (ex_lower ''Csv'')
         = Some [5]
     \<and> load_me_now ex_lower ex_import 0 ''Csv'' None (snd (load_me_later ex_lower 0 5 ex_state))
       = load_loop ex_import None [5] (snd (load_me_later ex_lower 0 5 ex_state))"
    using t [THEN conjunct2, THEN conjunct2, THEN spec, of 5] tag e(1,2)
    by (simp add: Let_def)
  have c: "load_me_now ex_lower ex_import 0 ''XML'' None ex_state
       = load_me_now ex_lower ex_import 0 ''Xml'' None ex_state"
    using tag_lookup_case_insensitive
      [where low = ex_lower and ka = "''XML''" and kb = "''Xml''" and s = ex_state and self = 0
         and imp = ex_import and library = None, OF xml, THEN conjunct1] reg
    by simp
  show ?thesis using a b c csv none by simp
qed




text \<open>
  C9. When \<open>load_me_now\<close> fails, the error is its result, \<open>get_a_plugin\<close> hands the
  same error on, and every manager's registry and both module globals are what they were
  before the call.
\<close>

theorem failed_resolve_keeps_index:
  assumes "load_me_now low imp self key library s = (Inl e, s')"
  shows "managers s' = managers s
       \<and> PLUG_IN_MANAGERS s' = PLUG_IN_MANAGERS s
       \<and> CACHED_PLUGIN_INFO s' = CACHED_PLUGIN_INFO s
       \<and> (library = None \<longrightarrow> get_a_plugin low call imp self key kwargs s = (Inl e, s'))"
  using assms load_me_now_frame [of low imp self key library s]
  by (auto simp add: get_a_plugin_def)

theorem failed_resolve_keeps_index_witness:
  "load_me_now ex_lower ex_import 0 ''unknownTag'' None ex_state
     = (Inl (Exception ''No Parser is found for unknownTag''), ex_state)
   \<and> get_a_plugin ex_lower ex_call ex_import 0 ''unknownTag'' [(''encoding'', ''utf-8'')] ex_state
     = (Inl (Exception ''No Parser is found for unknownTag''), ex_state)"
proof -
  have h: "load_me_now ex_lower ex_import 0 ''unknownTag'' None ex_state
     = (Inl (Exception ''No Parser is found for unknownTag''), ex_state)"
    by (simp add: ex_defs)
  show ?thesis
    using failed_resolve_keeps_index [OF h, where call = ex_call and kwargs = "[(''encoding'', ''utf-8'')]"] h by simp
qed

text \<open>
  C10. With a non-empty library, every descriptor that the scan passes over (it resolves
  to a class of another package) carries its class after the call, and its path was handed
  to the loader during the call when it had no class before; this holds whatever the call
  returns, and when no descriptor is left after them the call fails with
  \<open>Exception("<library> is not installed")\<close>.
\<close>

theorem load_me_now_library_caches_scanned:
  assumes reg: "registry (managers s self) (low key) = Some (pre @ post)"
    and lib: "lib \<noteq> []"
    and pre: "\<forall>q\<in>set pre. \<exists>c. lazy_handle imp (infos s q) = Inr c
                \<and> get_me_pypi_package_name (cls_module c) \<noteq> lib"
  shows "let (res, s') = load_me_now low imp self key (Some lib) s in
           (\<forall>q\<in>set pre.
               (\<exists>c. lazy_handle imp (infos s q) = Inr c \<and> cls (infos s' q) = Some c)
             \<and> (cls (infos s q) = None \<longrightarrow>
                  (\<exists>path new. absolute_import_path (infos s q) = Some path
                      \<and> imported s' = imported s @ new \<and> path \<in> set new)))
         \<and> (post = [] \<longrightarrow> res = Inl (Exception (lib @ '' is not installed'')))"
proof -
  let ?s1 = "resolve_all imp pre s"
  obtain res s' where run: "load_me_now low imp self key (Some lib) s = (res, s')"
    by (cases "load_me_now low imp self key (Some lib) s")
  have skip: "load_loop imp (Some lib) post ?s1 = (res, s')"
    using reg run load_loop_skip [OF lib pre, of post] by (simp add: load_me_now_def)
  have s': "s' = snd (load_loop imp (Some lib) post ?s1)" using skip by simp
  obtain tl1 where tl1: "imported s' = imported ?s1 @ tl1"
    using load_loop_imported [of imp "Some lib" post ?s1] s' by auto
  have each: "(\<exists>c. lazy_handle imp (infos s q) = Inr c \<and> cls (infos s' q) = Some c)
             \<and> (cls (infos s q) = None \<longrightarrow>
                  (\<exists>path new. absolute_import_path (infos s q) = Some path
                      \<and> imported s' = imported s @ new \<and> path \<in> set new))"
    if q: "q \<in> set pre" for q
  proof -
    obtain c where c: "lazy_handle imp (infos s q) = Inr c" using pre q by auto
    have "cls (infos ?s1 q) = Some c" using resolve_all_cls_cached [OF q c] .
    then have k: "cls (infos s' q) = Some c" unfolding s' by (rule load_loop_cls_kept)
    have l: "\<exists>path new. absolute_import_path (infos s q) = Some path
                      \<and> imported s' = imported s @ new \<and> path \<in> set new"
      if u: "cls (infos s q) = None"
    proof -
      obtain path where p: "absolute_import_path (infos s q) = Some path"
        using c u by (cases "absolute_import_path (infos s q)") (simp_all add: lazy_handle_def)
      obtain xs where "imported ?s1 = imported s @ xs" "path \<in> set xs"
        using resolve_all_loaded [OF q u p, of imp] by auto
      then have "imported s' = imported s @ (xs @ tl1) \<and> path \<in> set (xs @ tl1)"
        using tl1 by simp
      then show ?thesis using p by blast
    qed
    show ?thesis using c k l by simp
  qed
  have fail: "res = Inl (Exception (lib @ '' is not installed''))" if "post = []"
    using skip that by (simp add: percent_s_def)
  show ?thesis using run each fail by simp
qed

theorem load_me_now_library_caches_scanned_witness:
  "fst (load_me_now ex_lower ex_import 0 ''xml'' (Some ''c-xml'') ex_state)
     = Inl (Exception ''c-xml is not installed'')
   \<and> cls (infos (snd (load_me_now ex_lower ex_import 0 ''xml'' (Some ''c-xml'') ex_state)) 0)
       = Some a_reader
   \<and> cls (infos (snd (load_me_now ex_lower ex_import 0 ''xml'' (Some ''c-xml'') ex_state)) 1)
       = Some b_reader
   \<and> cls (infos ex_state 0) = None \<and> cls (infos ex_state 1) = None
   \<and> imported (snd (load_me_now ex_lower ex_import 0 ''xml'' (Some ''c-xml'') ex_state))
       = [''a_xml.reader.Reader'', ''b_xml.Reader'']"
proof -
  have reg: "registry (managers ex_state 0) (ex_lower ''xml'') = Some ([0, 1] @ [])"
    by (simp add: ex_defs)
  have lib: "''c-xml'' \<noteq> []" by simp
  have pre: "\<forall>q\<in>set [0, 1]. \<exists>c. lazy_handle ex_import (infos ex_state q) = Inr c
                \<and> get_me_pypi_package_name (cls_module c) \<noteq> ''c-xml''"
    by (simp add: ex_defs lazy_handle_def)
  have h: "lazy_handle ex_import (infos ex_state 0) = Inr a_reader"
    "lazy_handle ex_import (infos ex_state 1) = Inr b_reader"
    by (simp_all add: ex_defs lazy_handle_def)
  obtain res s' where r: "load_me_now ex_lower ex_import 0 ''xml'' (Some ''c-xml'') ex_state = (res, s')"
    by (cases "load_me_now ex_lower ex_import 0 ''xml'' (Some ''c-xml'') ex_state")
  have "res = Inl (Exception ''c-xml is not installed'')
      \<and> (\<exists>c. lazy_handle ex_import (infos ex_state 0) = Inr c \<and> cls (infos s' 0) = Some c)
      \<and> (\<exists>c. lazy_handle ex_import (infos ex_state 1) = Inr c \<and> cls (infos s' 1) = Some c)"
    using load_me_now_library_caches_scanned
      [where low = ex_lower and key = "''xml''", OF reg lib pre] r by simp
  moreover have "cls (infos ex_state 0) = None \<and> cls (infos ex_state 1) = None
     \<and> imported (snd (load_me_now ex_lower ex_import 0 ''xml'' (Some ''c-xml'') ex_state))
         = [''a_xml.reader.Reader'', ''b_xml.Reader'']"
    by (simp add: ex_defs)
  ultimately show ?thesis using r h by auto
qed

end
